theory Spec2Isabelle
  imports Complex_Main "HOL-Library.Word"
begin

unbundle bit_operations_syntax

section \<open>TimerLight: the scheduling engine of \<^verbatim>\<open>Timerclock.py\<close>\<close>

text \<open>
  Conventions of the embedding.
  \<^item> Python's unbounded integers are \<^typ>\<open>int\<close>.
  \<^item> Python's floats are idealised as exact \<^typ>\<open>real\<close> numbers: rounding of the
    binary floating-point format is not modelled.
  \<^item> The module-level globals (\<^verbatim>\<open>settings\<close>, \<^verbatim>\<open>flash_start_time\<close>,
    \<^verbatim>\<open>last_flash_toggle\<close>, \<^verbatim>\<open>external_rtc\<close>, \<^verbatim>\<open>rtc\<close>) are explicit arguments
    and results.
  \<^item> Each read of a clock is an input: \<^verbatim>\<open>get_current_minutes()\<close> is the argument
    \<open>m\<close>, \<^verbatim>\<open>time.time()\<close> is the argument \<open>now\<close>; all reads inside one evaluation
    see the same value.
  \<^item> An exception is a value of \<open>py_error\<close>.
\<close>

subsection \<open>Errors and numeric conversions\<close>

datatype py_error = ZeroDivisionError | IndexError | OSError

text \<open>\<^verbatim>\<open>int(x)\<close> on a float truncates towards zero.\<close>

definition py_int :: "real \<Rightarrow> int" where
  "py_int x = (if 0 \<le> x then \<lfloor>x\<rfloor> else \<lceil>x\<rceil>)"

text \<open>\<^verbatim>\<open>a / b\<close>: true division, raising on a zero divisor.\<close>

definition py_truediv :: "real \<Rightarrow> real \<Rightarrow> py_error + real" where
  "py_truediv a b = (if b = 0 then Inl ZeroDivisionError else Inr (a / b))"

subsection \<open>Settings\<close>

text \<open>
  A colour is the three-element list \<^verbatim>\<open>[r, g, b]\<close> of the settings (\<^verbatim>\<open>hex_to_rgb\<close>
  always builds three elements), here a triple. A time of day \<^verbatim>\<open>'HH:MM'\<close> is kept as
  the pair of the two integers that \<^verbatim>\<open>int(parts[0])\<close> and \<^verbatim>\<open>int(parts[1])\<close> read from it.
\<close>

type_synonym color = "int \<times> int \<times> int"

record settings =
  wake_time :: "int \<times> int"
  bedtime :: "int \<times> int"
  bedtime_enabled :: bool
  stay_color :: color
  wake_color :: color
  transition_minutes :: int
  utc_offset_minutes :: int
  dst_enabled :: bool
  dst_region :: "string option"
  leds_enabled :: bool
  brightness :: int
  brightness_ramp_enabled :: bool
  brightness_ramp_minutes :: int
  brightness_ramp_start :: int
  flash_enabled :: bool
  flash_duration :: int
  flash_interval :: int

text \<open>The defaults of the module-level \<^verbatim>\<open>settings\<close> dictionary.\<close>

definition default_settings :: settings where
  "default_settings =
     \<lparr> wake_time = (7, 0), bedtime = (21, 0), bedtime_enabled = True,
       stay_color = (255, 0, 0), wake_color = (0, 255, 0),
       transition_minutes = 30, utc_offset_minutes = 0,
       dst_enabled = True, dst_region = None,
       leds_enabled = False, brightness = 100,
       brightness_ramp_enabled = False, brightness_ramp_minutes = 15,
       brightness_ramp_start = 10,
       flash_enabled = False, flash_duration = 10, flash_interval = 500 \<rparr>"

definition time_to_minutes :: "int \<times> int \<Rightarrow> int" where
  "time_to_minutes parts = fst parts * 60 + snd parts"

subsection \<open>Easing and colour interpolation\<close>

definition ease_in_out_cubic :: "real \<Rightarrow> real" where
  "ease_in_out_cubic t =
     (if t < 1/2 then 4 * t * t * t else 1 - (- 2 * t + 2) ^ 3 / 2)"

definition interpolate_color :: "color \<Rightarrow> color \<Rightarrow> real \<Rightarrow> color" where
  "interpolate_color color1 color2 ratio =
     (let eased_ratio = ease_in_out_cubic ratio;
          r = py_int (real_of_int (fst color1)
                + real_of_int (fst color2 - fst color1) * eased_ratio);
          g = py_int (real_of_int (fst (snd color1))
                + real_of_int (fst (snd color2) - fst (snd color1)) * eased_ratio);
          b = py_int (real_of_int (snd (snd color1))
                + real_of_int (snd (snd color2) - snd (snd color1)) * eased_ratio)
      in (r, g, b))"

subsection \<open>Brightness ramp\<close>

definition get_current_brightness :: "settings \<Rightarrow> int \<Rightarrow> py_error + real" where
  "get_current_brightness s m =
     (let base_brightness = brightness s in
      if \<not> brightness_ramp_enabled s then Inr (real_of_int base_brightness)
      else
        let wake_minutes = time_to_minutes (wake_time s);
            ramp_duration = brightness_ramp_minutes s;
            ramp_start_brightness = brightness_ramp_start s
        in if m \<ge> wake_minutes \<and> m < wake_minutes + ramp_duration then
             (case py_truediv (real_of_int (m - wake_minutes)) (real_of_int ramp_duration) of
                Inl e \<Rightarrow> Inl e
              | Inr ramp_progress \<Rightarrow>
                  Inr (real_of_int ramp_start_brightness
                       + real_of_int (base_brightness - ramp_start_brightness)
                         * ease_in_out_cubic ramp_progress))
           else if m \<ge> wake_minutes + ramp_duration then Inr (real_of_int base_brightness)
           else Inr (real_of_int base_brightness))"

subsection \<open>Flash session\<close>

text \<open>The two globals of the flash overlay.\<close>

record flash_state =
  flash_start_time :: "real option"
  last_flash_toggle :: real

definition should_flash :: "settings \<Rightarrow> flash_state \<Rightarrow> int \<Rightarrow> real \<Rightarrow> bool \<times> flash_state" where
  "should_flash s fs m now =
     (if \<not> flash_enabled s then (False, fs\<lparr>flash_start_time := None\<rparr>)
      else if \<not> bedtime_enabled s then (False, fs\<lparr>flash_start_time := None\<rparr>)
      else
        let bedtime_minutes = time_to_minutes (bedtime s) in
        if m = bedtime_minutes then
          (let start = (case flash_start_time fs of None \<Rightarrow> now | Some t \<Rightarrow> t);
               elapsed = now - start
           in if elapsed < real_of_int (flash_duration s)
              then (True, fs\<lparr>flash_start_time := Some start\<rparr>)
              else (False, fs\<lparr>flash_start_time := None\<rparr>))
        else (False, fs\<lparr>flash_start_time := None\<rparr>))"

subsection \<open>The scheduling evaluation \<^verbatim>\<open>update_leds\<close>\<close>

text \<open>
  What one evaluation does to the ring: \<^verbatim>\<open>turn_off_leds()\<close>, a call
  \<^verbatim>\<open>set_all_leds(r, g, b)\<close> (which scales by the brightness downstream), or no write at
  all (a flash session whose toggle interval has not elapsed).
\<close>

datatype led_action = TurnOffLeds | SetAllLeds color | NoWrite

text \<open>The block of \<^verbatim>\<open>update_leds\<close> that computes \<^verbatim>\<open>in_stay_period\<close>.\<close>

definition in_stay_period :: "settings \<Rightarrow> int \<Rightarrow> bool" where
  "in_stay_period s m =
     (let wake_minutes = time_to_minutes (wake_time s);
          transition_start = wake_minutes - transition_minutes s;
          bedtime_minutes = time_to_minutes (bedtime s)
      in if bedtime_minutes > wake_minutes
         then (m \<ge> bedtime_minutes \<or> m < transition_start)
         else (m \<ge> bedtime_minutes \<and> m < transition_start))"

text \<open>The block "normal wake-up transition logic" of \<^verbatim>\<open>update_leds\<close>.\<close>

definition wake_transition_color :: "settings \<Rightarrow> int \<Rightarrow> py_error + color" where
  "wake_transition_color s m =
     (let wake_minutes = time_to_minutes (wake_time s);
          transition_start = wake_minutes - transition_minutes s
      in if m \<ge> wake_minutes then Inr (wake_color s)
         else if m \<ge> transition_start then
           (case py_truediv (real_of_int (m - transition_start))
                            (real_of_int (transition_minutes s)) of
              Inl e \<Rightarrow> Inl e
            | Inr progress \<Rightarrow> Inr (interpolate_color (stay_color s) (wake_color s) progress))
         else Inr (stay_color s))"

text \<open>The toggle test \<^verbatim>\<open>int(current_time / flash_interval) % 2\<close>.\<close>

definition flash_phase :: "settings \<Rightarrow> real \<Rightarrow> py_error + int" where
  "flash_phase s now =
     (case py_truediv now (real_of_int (flash_interval s) / 1000) of
        Inl e \<Rightarrow> Inl e
      | Inr q \<Rightarrow> Inr (py_int q mod 2))"

definition update_leds ::
  "settings \<Rightarrow> flash_state \<Rightarrow> int \<Rightarrow> real \<Rightarrow> (py_error + led_action) \<times> flash_state" where
  "update_leds s fs m now =
     (if \<not> leds_enabled s then (Inr TurnOffLeds, fs)
      else if bedtime_enabled s \<and> in_stay_period s m
        then (Inr (SetAllLeds (stay_color s)), fs)
      else
        (case wake_transition_color s m of
           Inl e \<Rightarrow> (Inl e, fs)
         | Inr color \<Rightarrow>
             (case should_flash s fs m now of
                (True, fs1) \<Rightarrow>
                  (if now - last_flash_toggle fs1 \<ge> real_of_int (flash_interval s) / 1000 then
                     (let fs2 = fs1\<lparr>last_flash_toggle := now\<rparr> in
                      case flash_phase s now of
                        Inl e \<Rightarrow> (Inl e, fs2)
                      | Inr p \<Rightarrow>
                          if p = 0 then (Inr (SetAllLeds color), fs2)
                          else (Inr (SetAllLeds (0, 0, 0)), fs2))
                   else (Inr NoWrite, fs1))
              | (False, fs1) \<Rightarrow> (Inr (SetAllLeds color), fs1))))"

text \<open>
  The three states the specification names, and which branch of \<^verbatim>\<open>update_leds\<close>
  stands for each: \<open>NIGHT\<close> is the early return of the stay period or the final
  \<^verbatim>\<open>else\<close>, \<open>DAY\<close> the branch \<^verbatim>\<open>current_minutes >= wake_minutes\<close>, \<open>TRANSITION\<close> the
  \<^verbatim>\<open>elif\<close> branch that interpolates.
\<close>

datatype sched_state = NIGHT | TRANSITION | DAY

fun selects :: "settings \<Rightarrow> int \<Rightarrow> sched_state \<Rightarrow> bool" where
  "selects s m NIGHT =
     ((bedtime_enabled s \<and> in_stay_period s m)
      \<or> (\<not> (bedtime_enabled s \<and> in_stay_period s m)
           \<and> \<not> m \<ge> time_to_minutes (wake_time s)
           \<and> \<not> m \<ge> time_to_minutes (wake_time s) - transition_minutes s))"
| "selects s m DAY =
     (\<not> (bedtime_enabled s \<and> in_stay_period s m)
      \<and> m \<ge> time_to_minutes (wake_time s))"
| "selects s m TRANSITION =
     (\<not> (bedtime_enabled s \<and> in_stay_period s m)
      \<and> \<not> m \<ge> time_to_minutes (wake_time s)
      \<and> m \<ge> time_to_minutes (wake_time s) - transition_minutes s)"

text \<open>The colour an evaluation settles on before the flash overlay and the LED switch.\<close>

definition steady_color :: "settings \<Rightarrow> int \<Rightarrow> py_error + color" where
  "steady_color s m =
     (if bedtime_enabled s \<and> in_stay_period s m then Inr (stay_color s)
      else wake_transition_color s m)"

text \<open>The night period in the words of the specification.\<close>

definition spec_in_night_period :: "int \<Rightarrow> int \<Rightarrow> int \<Rightarrow> int \<Rightarrow> bool" where
  "spec_in_night_period bedtime_minute wake_minute transition_start m =
     (if bedtime_minute > wake_minute
      then m \<ge> bedtime_minute \<or> m < transition_start
      else bedtime_minute \<le> m \<and> m < transition_start)"

subsection \<open>Concrete configurations\<close>

text \<open>
  The defaults with single settings changed, as the configuration page would store them,
  and the flash globals as the module initialises them.
\<close>

definition cfg_witness :: settings where
  "cfg_witness = default_settings\<lparr>leds_enabled := True\<rparr>"

definition fs0 :: flash_state where
  "fs0 = \<lparr>flash_start_time = None, last_flash_toggle = 0\<rparr>"

definition cfg_zero_transition :: settings where
  "cfg_zero_transition = default_settings\<lparr>leds_enabled := True, transition_minutes := 0\<rparr>"

definition cfg_flash_night :: settings where
  "cfg_flash_night = default_settings\<lparr>leds_enabled := True, flash_enabled := True\<rparr>"

definition cfg_flash_day :: settings where
  "cfg_flash_day =
     default_settings\<lparr>leds_enabled := True, flash_enabled := True, bedtime := (7, 0)\<rparr>"

definition cfg_ramp :: settings where
  "cfg_ramp = default_settings\<lparr>brightness_ramp_enabled := True\<rparr>"

subsection \<open>The two clocks\<close>

text \<open>
  The value of the internal clock, as \<^verbatim>\<open>rtc.datetime()\<close> reads and writes it:
  \<^verbatim>\<open>(year, month, day, weekday, hours, minutes, seconds, subseconds)\<close>.
\<close>

type_synonym rtc_datetime = "int \<times> int \<times> int \<times> int \<times> int \<times> int \<times> int \<times> int"

text \<open>
  The I2C bus handle kept in \<^verbatim>\<open>external_rtc\<close>, modelled by its answer to
  \<^verbatim>\<open>readfrom_mem(addr, memaddr, nbytes)\<close>: the bytes read, or the exception raised.
\<close>

type_synonym i2c_bus = "int \<Rightarrow> int \<Rightarrow> nat \<Rightarrow> py_error + int list"

record clock_hw =
  external_rtc :: "i2c_bus option"
  rtc :: rtc_datetime

definition DS3231_ADDR :: int where
  "DS3231_ADDR = 104"

definition bcd_to_dec :: "int \<Rightarrow> int" where
  "bcd_to_dec bcd = drop_bit 4 bcd * 10 + (bcd AND 15)"

text \<open>
  \<^verbatim>\<open>read_ds3231_time\<close>: any exception inside the \<^verbatim>\<open>try\<close> block (the bus error of
  \<^verbatim>\<open>readfrom_mem\<close>, an index past the end of a short answer) ends in \<^verbatim>\<open>return None\<close>.
\<close>

definition read_ds3231_time :: "clock_hw \<Rightarrow> rtc_datetime option" where
  "read_ds3231_time hw =
     (case external_rtc hw of
        None \<Rightarrow> None
      | Some bus \<Rightarrow>
          (case bus DS3231_ADDR 0 7 of
             Inl e \<Rightarrow> None
           | Inr data \<Rightarrow>
               if length data < 7 then None
               else
                 let seconds = bcd_to_dec (data ! 0 AND 127);
                     minutes = bcd_to_dec (data ! 1 AND 127);
                     hours = bcd_to_dec (data ! 2 AND 63);
                     day_of_week = bcd_to_dec (data ! 3 AND 7);
                     day = bcd_to_dec (data ! 4 AND 63);
                     month = bcd_to_dec (data ! 5 AND 31);
                     year = bcd_to_dec (data ! 6) + 2000
                 in Some (year, month, day, day_of_week, hours, minutes, seconds, 0)))"

text \<open>\<^verbatim>\<open>sync_time_from_ds3231\<close>: the answer and the clocks afterwards.\<close>

definition sync_time_from_ds3231 :: "clock_hw \<Rightarrow> bool \<times> clock_hw" where
  "sync_time_from_ds3231 hw =
     (case external_rtc hw of
        None \<Rightarrow> (False, hw)
      | Some bus \<Rightarrow>
          (case read_ds3231_time hw of
             Some ds_time \<Rightarrow> (True, hw\<lparr>rtc := ds_time\<rparr>)
           | None \<Rightarrow> (False, hw)))"

definition failing_bus :: i2c_bus where
  "failing_bus addr memaddr nbytes = Inl OSError"

definition good_bus :: i2c_bus where
  "good_bus addr memaddr nbytes = Inr [48, 89, 35, 6, 9, 3, 36]"

subsection \<open>The platform's calendar functions\<close>

text \<open>
  \<^verbatim>\<open>time.mktime\<close> and \<^verbatim>\<open>time.localtime\<close> belong to the platform, not to the repository.
  They are modelled by their documented behaviour: seconds since 1970-01-01 00:00:00 in the
  proleptic Gregorian calendar with no time zone of their own, \<^verbatim>\<open>mktime\<close> accepting a
  day of the month past the end of the month (it counts on into the next month), and
  \<^verbatim>\<open>localtime\<close> finding the year by stepping year by year from the epoch. The weekday
  field counts from Monday = 0 to Sunday = 6. Months are 1 to 12 at every call the engine
  makes.
\<close>

record struct_time =
  tm_year :: int
  tm_mon :: int
  tm_mday :: int
  tm_hour :: int
  tm_min :: int
  tm_sec :: int
  tm_wday :: int
  tm_yday :: int

definition is_leap_year :: "int \<Rightarrow> bool" where
  "is_leap_year y = (y mod 4 = 0 \<and> (y mod 100 \<noteq> 0 \<or> y mod 400 = 0))"

definition days_in_year :: "int \<Rightarrow> int" where
  "days_in_year y = (if is_leap_year y then 366 else 365)"

text \<open>Days from 1970-01-01 to the first of January of year \<open>y\<close>.\<close>

definition days_before_year :: "int \<Rightarrow> int" where
  "days_before_year y =
     365 * (y - 1970) + ((y - 1) div 4 - (y - 1) div 100 + (y - 1) div 400) - 477"

text \<open>Days from the first of January to the first of month \<open>m\<close>.\<close>

definition days_before_month :: "bool \<Rightarrow> int \<Rightarrow> int" where
  "days_before_month leap m =
     (if m \<le> 1 then 0
      else if m = 2 then 31
      else (if leap then 1 else 0) +
        (if m = 3 then 59 else if m = 4 then 90 else if m = 5 then 120
         else if m = 6 then 151 else if m = 7 then 181 else if m = 8 then 212
         else if m = 9 then 243 else if m = 10 then 273 else if m = 11 then 304
         else 334))"

definition mktime :: "int \<times> int \<times> int \<times> int \<times> int \<times> int \<times> int \<times> int \<Rightarrow> int" where
  "mktime tm =
     (case tm of (year, month, mday, hour, minute, second, wd, yd) \<Rightarrow>
        (days_before_year year + days_before_month (is_leap_year year) month + (mday - 1))
          * 86400
        + hour * 3600 + minute * 60 + second)"

function year_fwd :: "int \<Rightarrow> int \<Rightarrow> int \<times> int" where
  "year_fwd y d =
     (if d \<ge> days_in_year y then year_fwd (y + 1) (d - days_in_year y) else (y, d))"
  by pat_completeness auto
termination
  by (relation "measure (\<lambda>(y, d). nat d)") (auto simp: days_in_year_def split: if_splits)

function year_bwd :: "int \<Rightarrow> int \<Rightarrow> int \<times> int" where
  "year_bwd y d =
     (if d < 0 then year_bwd (y - 1) (d + days_in_year (y - 1)) else (y, d))"
  by pat_completeness auto
termination
  by (relation "measure (\<lambda>(y, d). nat (- d))") (auto simp: days_in_year_def split: if_splits)

text \<open>The year of a day number and the day within that year, counted from 0.\<close>

definition year_and_yday :: "int \<Rightarrow> int \<times> int" where
  "year_and_yday days = (if days < 0 then year_bwd 1970 days else year_fwd 1970 days)"

definition month_and_mday :: "bool \<Rightarrow> int \<Rightarrow> int \<times> int" where
  "month_and_mday leap yd =
     (let l = (if leap then 1 else 0) in
      if yd < 31 then (1, yd + 1)
      else if yd < 59 + l then (2, yd - 31 + 1)
      else if yd < 90 + l then (3, yd - (59 + l) + 1)
      else if yd < 120 + l then (4, yd - (90 + l) + 1)
      else if yd < 151 + l then (5, yd - (120 + l) + 1)
      else if yd < 181 + l then (6, yd - (151 + l) + 1)
      else if yd < 212 + l then (7, yd - (181 + l) + 1)
      else if yd < 243 + l then (8, yd - (212 + l) + 1)
      else if yd < 273 + l then (9, yd - (243 + l) + 1)
      else if yd < 304 + l then (10, yd - (273 + l) + 1)
      else if yd < 334 + l then (11, yd - (304 + l) + 1)
      else (12, yd - (334 + l) + 1))"

definition localtime :: "int \<Rightarrow> struct_time" where
  "localtime t =
     (let days = t div 86400;
          secs = t mod 86400;
          yy = year_and_yday days;
          mm = month_and_mday (is_leap_year (fst yy)) (snd yy)
      in \<lparr> tm_year = fst yy, tm_mon = fst mm, tm_mday = snd mm,
           tm_hour = secs div 3600, tm_min = (secs mod 3600) div 60, tm_sec = secs mod 60,
           tm_wday = (days + 3) mod 7, tm_yday = snd yy + 1 \<rparr>)"

subsection \<open>Daylight saving time\<close>

record dst_rule =
  start_month :: int
  start_week :: int
  start_hour :: int
  end_month :: int
  end_week :: int
  end_hour :: int
  offset_minutes :: int

definition DST_RULES :: "string \<Rightarrow> dst_rule option" where
  "DST_RULES = map_of
     [(''US'', \<lparr> start_month = 3, start_week = 2, start_hour = 2,
                end_month = 11, end_week = 1, end_hour = 2, offset_minutes = 60 \<rparr>),
      (''EU'', \<lparr> start_month = 3, start_week = - 1, start_hour = 1,
                end_month = 10, end_week = - 1, end_hour = 1, offset_minutes = 60 \<rparr>),
      (''UK'', \<lparr> start_month = 3, start_week = - 1, start_hour = 1,
                end_month = 10, end_week = - 1, end_hour = 1, offset_minutes = 60 \<rparr>),
      (''AU'', \<lparr> start_month = 10, start_week = 1, start_hour = 2,
                end_month = 4, end_week = 1, end_hour = 3, offset_minutes = 60 \<rparr>)]"

text \<open>The weekday test of both loops: \<^verbatim>\<open>(time.localtime(t)[6] + 1) % 7\<close>.\<close>

definition current_weekday :: "int \<Rightarrow> int \<Rightarrow> int \<Rightarrow> int" where
  "current_weekday year month day =
     (tm_wday (localtime (mktime (year, month, day, 0, 0, 0, 0, 0))) + 1) mod 7"

text \<open>
  The loop of the branch \<^verbatim>\<open>n > 0\<close>, from its state \<^verbatim>\<open>(day, count)\<close>. The modelled
  \<^verbatim>\<open>mktime\<close> accepts every day from 1 to 31, so the \<^verbatim>\<open>except\<close> branch is never taken
  and the scan ends at day 31.
\<close>

function nth_forward :: "int \<Rightarrow> int \<Rightarrow> int \<Rightarrow> int \<Rightarrow> int \<Rightarrow> int \<Rightarrow> int option" where
  "nth_forward year month weekday n day count =
     (if day \<le> 31 then
        (if current_weekday year month day = weekday then
           (if count + 1 = n then Some day
            else nth_forward year month weekday n (day + 1) (count + 1))
         else nth_forward year month weekday n (day + 1) count)
      else None)"
  by pat_completeness auto
termination
  by (relation "measure (\<lambda>(year, month, weekday, n, day, count). nat (32 - day))") auto

text \<open>The loop of the branch "last occurrence", from its state \<^verbatim>\<open>day\<close>.\<close>

function last_backward :: "int \<Rightarrow> int \<Rightarrow> int \<Rightarrow> int \<Rightarrow> int option" where
  "last_backward year month weekday day =
     (if day \<ge> 1 then
        (if current_weekday year month day = weekday then Some day
         else last_backward year month weekday (day - 1))
      else None)"
  by pat_completeness auto
termination
  by (relation "measure (\<lambda>(year, month, weekday, day). nat day)") auto

definition get_nth_weekday_of_month :: "int \<Rightarrow> int \<Rightarrow> int \<Rightarrow> int \<Rightarrow> int option" where
  "get_nth_weekday_of_month year month weekday n =
     (if n > 0 then nth_forward year month weekday n 1 0
      else
        let next_month = (if month = 12 then 1 else month + 1);
            next_year = (if month = 12 then year + 1 else year);
            last_day = mktime (next_year, next_month, 1, 0, 0, 0, 0, 0) - 86400;
            day = tm_mday (localtime last_day)
        in last_backward year month weekday day)"

text \<open>Python's truth value of a day that may be \<^verbatim>\<open>None\<close>.\<close>

definition truthy_day :: "int option \<Rightarrow> bool" where
  "truthy_day d = (case d of None \<Rightarrow> False | Some k \<Rightarrow> k \<noteq> 0)"

definition calculate_dst_transitions :: "int \<Rightarrow> string \<Rightarrow> int option \<times> int option" where
  "calculate_dst_transitions year region =
     (case DST_RULES region of
        None \<Rightarrow> (None, None)
      | Some rules \<Rightarrow>
          let start_day = get_nth_weekday_of_month year (start_month rules) 6 (start_week rules);
              end_day = get_nth_weekday_of_month year (end_month rules) 6 (end_week rules)
          in if truthy_day start_day \<and> truthy_day end_day then
               (Some (mktime (year, start_month rules, the start_day,
                              start_hour rules, 0, 0, 0, 0)),
                Some (mktime (year, end_month rules, the end_day,
                              end_hour rules, 0, 0, 0, 0)))
             else (None, None))"

definition is_dst_active :: "settings \<Rightarrow> int \<Rightarrow> string \<Rightarrow> bool" where
  "is_dst_active s current_time region =
     (if \<not> dst_enabled s \<or> DST_RULES region = None then False
      else
        let year = tm_year (localtime current_time) in
        (case calculate_dst_transitions year region of
           (Some dst_start, Some dst_end) \<Rightarrow>
             if start_month (the (DST_RULES region)) < end_month (the (DST_RULES region))
             then dst_start \<le> current_time \<and> current_time < dst_end
             else current_time \<ge> dst_start \<or> current_time < dst_end
         | _ \<Rightarrow> False))"

text \<open>The loops are unfolded one step at a time, where a proof asks for it.\<close>

declare year_fwd.simps [simp del]
declare year_bwd.simps [simp del]
declare nth_forward.simps [simp del]
declare last_backward.simps [simp del]

section \<open>Properties\<close>

subsection \<open>Easing\<close>

lemma py_int_of_int: "py_int (real_of_int k) = k"
  by (simp add: py_int_def)

lemma cube_mono_real:
  fixes a b :: real
  assumes "a \<le> b"
  shows "a * a * a \<le> b * b * b"
proof -
  have "a ^ 3 \<le> b ^ 3"
    using assms by (rule power_mono_odd[rotated]) simp
  then show ?thesis by (simp add: power3_eq_cube)
qed

lemma ease_low_bound:
  fixes t :: real
  assumes "0 \<le> t" "t < 1/2"
  shows "4 * t * t * t \<le> 1/2"
proof -
  have "t * t * t \<le> (1/2) * (1/2) * (1/2 :: real)"
    using assms by (intro cube_mono_real) simp
  then show ?thesis by simp
qed

lemma ease_high_bound:
  fixes t :: real
  assumes "1/2 \<le> t"
  shows "1/2 \<le> 1 - (- 2 * t + 2) ^ 3 / 2"
proof -
  have "(- 2 * t + 2) ^ 3 \<le> (1::real) ^ 3"
    using assms by (intro power_mono_odd) simp_all
  then show ?thesis by simp
qed

lemma ease_mono:
  assumes "0 \<le> t1" "t1 \<le> t2"
  shows "ease_in_out_cubic t1 \<le> ease_in_out_cubic t2"
proof -
  consider (low) "t2 < 1/2" | (cross) "t1 < 1/2" "1/2 \<le> t2" | (high) "1/2 \<le> t1"
    using assms by linarith
  then show ?thesis
  proof cases
    case low
    then have "t1 < 1/2" using assms by linarith
    moreover have "t1 * t1 * t1 \<le> t2 * t2 * t2"
      using assms by (intro cube_mono_real)
    ultimately show ?thesis
      using low by (simp add: ease_in_out_cubic_def mult.assoc)
  next
    case cross
    have "4 * t1 * t1 * t1 \<le> 1/2"
      using assms cross by (intro ease_low_bound)
    moreover have "1/2 \<le> 1 - (- 2 * t2 + 2) ^ 3 / 2"
      using cross by (intro ease_high_bound)
    ultimately show ?thesis
      using cross by (simp add: ease_in_out_cubic_def)
  next
    case high
    then have h2: "1/2 \<le> t2" using assms by linarith
    have "(- 2 * t2 + 2) ^ 3 \<le> (- 2 * t1 + 2) ^ 3"
      using assms by (intro power_mono_odd) simp_all
    then show ?thesis
      using high h2 by (simp add: ease_in_out_cubic_def)
  qed
qed

text \<open>
  C9. The cubic ease-in-out function is monotonically non-decreasing on \<open>[0,1]\<close>, takes
  the values \<open>f(0) = 0\<close>, \<open>f(1) = 1\<close> and \<open>f(1/2) = 1/2\<close>, and the eased colour
  interpolation returns exactly the first colour at progress 0 and exactly the second
  colour at progress 1.
\<close>

theorem ease_in_out_cubic_monotone_and_endpoints:
  "(\<forall>t1 t2. 0 \<le> t1 \<and> t1 \<le> t2 \<and> t2 \<le> 1 \<longrightarrow>
       ease_in_out_cubic t1 \<le> ease_in_out_cubic t2)
   \<and> ease_in_out_cubic 0 = 0
   \<and> ease_in_out_cubic 1 = 1
   \<and> ease_in_out_cubic (1/2) = 1/2
   \<and> interpolate_color color1 color2 0 = color1
   \<and> interpolate_color color1 color2 1 = color2"
proof -
  have e0: "ease_in_out_cubic 0 = 0" and e1: "ease_in_out_cubic 1 = 1"
    and eh: "ease_in_out_cubic (1/2) = 1/2"
    by (simp_all add: ease_in_out_cubic_def)
  have i0: "interpolate_color color1 color2 0 = color1"
    by (simp add: interpolate_color_def e0 py_int_of_int)
  have "\<And>a b :: int. py_int (real_of_int a + (real_of_int b - real_of_int a)) = b"
    by (simp add: py_int_def)
  then have i1: "interpolate_color color1 color2 1 = color2"
    by (simp add: interpolate_color_def e1)
  show ?thesis
    using e0 e1 eh i0 i1 ease_mono by blast
qed

theorem ease_in_out_cubic_monotone_witness:
  "(0::real) \<le> 1/4 \<and> (1/4::real) \<le> 3/4 \<and> (3/4::real) \<le> 1
   \<and> ease_in_out_cubic (1/4) \<le> ease_in_out_cubic (3/4)
   \<and> interpolate_color (255, 0, 0) (0, 255, 0) 0 = (255, 0, 0)
   \<and> interpolate_color (255, 0, 0) (0, 255, 0) 1 = (0, 255, 0)"
  using ease_in_out_cubic_monotone_and_endpoints [of "(255, 0, 0)" "(0, 255, 0)"]
  by simp

subsection \<open>State selection\<close>

lemmas cfg_simps = cfg_witness_def default_settings_def time_to_minutes_def

lemma selects_cases:
  "selects s m NIGHT \<or> selects s m TRANSITION \<or> selects s m DAY"
  by (simp only: selects.simps) blast

lemma selects_disjoint:
  "\<not> (selects s m NIGHT \<and> selects s m TRANSITION)"
  "\<not> (selects s m NIGHT \<and> selects s m DAY)"
  "\<not> (selects s m TRANSITION \<and> selects s m DAY)"
  by (simp_all only: selects.simps) blast+

lemma selects_exactly_one: "\<exists>!st. selects s m st"
proof -
  obtain st where st: "selects s m st"
    using selects_cases by blast
  have "st' = st" if "selects s m st'" for st'
    using that st selects_disjoint[of s m]
    by (cases st; cases st') blast+
  with st show ?thesis by blast
qed

lemma steady_night: "selects s m NIGHT \<Longrightarrow> steady_color s m = Inr (stay_color s)"
  by (cases "bedtime_enabled s"; cases "in_stay_period s m")
     (simp_all add: steady_color_def wake_transition_color_def Let_def)

lemma steady_day: "selects s m DAY \<Longrightarrow> steady_color s m = Inr (wake_color s)"
  by (cases "bedtime_enabled s"; cases "in_stay_period s m")
     (simp_all add: steady_color_def wake_transition_color_def Let_def)

lemma steady_transition:
  assumes "selects s m TRANSITION"
  shows "0 < transition_minutes s"
    and "steady_color s m = Inr (interpolate_color (stay_color s) (wake_color s)
              (real_of_int (m - (time_to_minutes (wake_time s) - transition_minutes s))
                  / real_of_int (transition_minutes s)))"
proof -
  from assms show pos: "0 < transition_minutes s" by simp
  then have nz: "real_of_int (transition_minutes s) \<noteq> 0" by simp
  from assms have out: "\<not> (bedtime_enabled s \<and> in_stay_period s m)" by simp
  from assms nz
  show "steady_color s m = Inr (interpolate_color (stay_color s) (wake_color s)
              (real_of_int (m - (time_to_minutes (wake_time s) - transition_minutes s))
                  / real_of_int (transition_minutes s)))"
    by (cases "bedtime_enabled s"; cases "in_stay_period s m")
       (simp_all add: steady_color_def wake_transition_color_def py_truediv_def Let_def)
qed

lemma update_leds_no_flash:
  assumes "leds_enabled s" "\<not> fst (should_flash s fs m now)"
  shows "fst (update_leds s fs m now)
           = (case steady_color s m of Inl e \<Rightarrow> Inl e | Inr c \<Rightarrow> Inr (SetAllLeds c))"
proof (cases "bedtime_enabled s \<and> in_stay_period s m")
  case True
  with assms show ?thesis
    by (simp add: update_leds_def steady_color_def)
next
  case False
  obtain b fs1 where sf: "should_flash s fs m now = (b, fs1)"
    by (cases "should_flash s fs m now")
  with assms have "\<not> b" by simp
  with False assms sf show ?thesis
    by (cases "bedtime_enabled s"; cases "in_stay_period s m")
       (simp_all add: update_leds_def steady_color_def split: sum.splits)
qed

text \<open>
  C5. For every local minute of the day \<open>m\<close> in \<open>[0, 1440)\<close> and every configuration,
  exactly one of the states \<open>NIGHT\<close>, \<open>TRANSITION\<close>, \<open>DAY\<close> is selected; the colour
  the evaluation settles on is the one of that state, it is never an error, and with the
  LEDs enabled and no flash session it is what \<^verbatim>\<open>update_leds\<close> hands to the ring.
\<close>

theorem exactly_one_state_selected:
  assumes "0 \<le> m" "m < 1440"
  shows "(\<exists>!st. selects s m st)
     \<and> (selects s m NIGHT \<longrightarrow> steady_color s m = Inr (stay_color s))
     \<and> (selects s m DAY \<longrightarrow> steady_color s m = Inr (wake_color s))
     \<and> (selects s m TRANSITION \<longrightarrow> 0 < transition_minutes s \<and>
           steady_color s m = Inr (interpolate_color (stay_color s) (wake_color s)
              (real_of_int (m - (time_to_minutes (wake_time s) - transition_minutes s))
                  / real_of_int (transition_minutes s))))
     \<and> (leds_enabled s \<and> \<not> fst (should_flash s fs m now) \<longrightarrow>
           (\<forall>c. steady_color s m = Inr c \<longrightarrow>
                fst (update_leds s fs m now) = Inr (SetAllLeds c)))"
proof -
  have out: "leds_enabled s \<and> \<not> fst (should_flash s fs m now) \<longrightarrow>
           (\<forall>c. steady_color s m = Inr c \<longrightarrow>
                fst (update_leds s fs m now) = Inr (SetAllLeds c))"
    by (simp add: update_leds_no_flash)
  show ?thesis
    using selects_exactly_one steady_night steady_day steady_transition out by blast
qed

text \<open>
  C3. With bedtime enabled, the engine is in the night period exactly when: if
  \<open>bedtime_minute > wake_minute\<close>, \<open>m \<ge> bedtime_minute\<close> or \<open>m < transition_start\<close>;
  otherwise \<open>bedtime_minute \<le> m\<close> and \<open>m < transition_start\<close>, where
  \<open>transition_start = wake_minute - transition_minutes\<close>. In the night period the steady
  colour is the stay colour, and it is what \<^verbatim>\<open>update_leds\<close> hands to the ring when the
  LEDs are enabled.
\<close>

theorem night_period_condition:
  assumes "bedtime_enabled s"
  shows "(in_stay_period s m \<longleftrightarrow>
            spec_in_night_period (time_to_minutes (bedtime s)) (time_to_minutes (wake_time s))
              (time_to_minutes (wake_time s) - transition_minutes s) m)
     \<and> (in_stay_period s m \<longrightarrow> steady_color s m = Inr (stay_color s))
     \<and> (in_stay_period s m \<longrightarrow> leds_enabled s \<longrightarrow>
           update_leds s fs m now = (Inr (SetAllLeds (stay_color s)), fs))"
proof -
  have a: "in_stay_period s m \<longleftrightarrow>
            spec_in_night_period (time_to_minutes (bedtime s)) (time_to_minutes (wake_time s))
              (time_to_minutes (wake_time s) - transition_minutes s) m"
    by (simp add: in_stay_period_def spec_in_night_period_def Let_def)
  have b: "in_stay_period s m \<longrightarrow> steady_color s m = Inr (stay_color s)"
    using assms by (simp add: steady_color_def)
  have c: "in_stay_period s m \<longrightarrow> leds_enabled s \<longrightarrow>
           update_leds s fs m now = (Inr (SetAllLeds (stay_color s)), fs)"
    using assms by (cases "in_stay_period s m") (simp_all add: update_leds_def)
  from a b c show ?thesis by blast
qed

theorem exactly_one_state_selected_witness:
  "(0::int) \<le> 405 \<and> (405::int) < 1440
   \<and> selects cfg_witness 405 TRANSITION
   \<and> \<not> selects cfg_witness 405 NIGHT \<and> \<not> selects cfg_witness 405 DAY
   \<and> 0 < transition_minutes cfg_witness
   \<and> steady_color cfg_witness 405
       = Inr (interpolate_color (255, 0, 0) (0, 255, 0) (1/2))
   \<and> fst (update_leds cfg_witness fs0 405 0)
       = Inr (SetAllLeds (interpolate_color (255, 0, 0) (0, 255, 0) (1/2)))"
proof -
  have r: "(0::int) \<le> 405" "(405::int) < 1440" by simp_all
  have nf: "leds_enabled cfg_witness \<and> \<not> fst (should_flash cfg_witness fs0 405 0)"
    by (simp add: cfg_simps should_flash_def)
  have sel: "selects cfg_witness 405 TRANSITION"
    by (simp add: cfg_simps in_stay_period_def)
  have nsel: "\<not> selects cfg_witness 405 NIGHT" "\<not> selects cfg_witness 405 DAY"
    by (simp_all add: cfg_simps in_stay_period_def)
  note E = exactly_one_state_selected [OF r, of cfg_witness fs0 0]
  from E sel have pos: "0 < transition_minutes cfg_witness"
    and st: "steady_color cfg_witness 405 = Inr (interpolate_color (stay_color cfg_witness)
          (wake_color cfg_witness)
          (real_of_int (405 - (time_to_minutes (wake_time cfg_witness)
              - transition_minutes cfg_witness))
           / real_of_int (transition_minutes cfg_witness)))"
    by blast+
  from E nf st have out: "fst (update_leds cfg_witness fs0 405 0)
      = Inr (SetAllLeds (interpolate_color (stay_color cfg_witness)
          (wake_color cfg_witness)
          (real_of_int (405 - (time_to_minutes (wake_time cfg_witness)
              - transition_minutes cfg_witness))
           / real_of_int (transition_minutes cfg_witness))))"
    by blast
  have e: "real_of_int (405 - (time_to_minutes (wake_time cfg_witness)
              - transition_minutes cfg_witness))
           / real_of_int (transition_minutes cfg_witness) = 1/2"
     and c: "stay_color cfg_witness = (255, 0, 0)" "wake_color cfg_witness = (0, 255, 0)"
    by (simp_all add: cfg_simps)
  from st out show ?thesis
    unfolding e c using sel nsel pos by simp
qed

theorem night_period_condition_witness:
  "bedtime_enabled cfg_witness
   \<and> in_stay_period cfg_witness 1300
   \<and> spec_in_night_period 1260 420 390 1300
   \<and> steady_color cfg_witness 1300 = Inr (255, 0, 0)
   \<and> leds_enabled cfg_witness
   \<and> update_leds cfg_witness fs0 1300 0 = (Inr (SetAllLeds (255, 0, 0)), fs0)"
proof -
  have b: "bedtime_enabled cfg_witness" and l: "leds_enabled cfg_witness"
    by (simp_all add: cfg_simps)
  have i: "in_stay_period cfg_witness 1300"
    by (simp add: cfg_simps in_stay_period_def)
  show ?thesis
    using night_period_condition [OF b, of 1300 fs0 0] i l
    by (simp add: cfg_simps)
qed

subsection \<open>Zero-length transition\<close>

lemma wake_transition_color_zero:
  assumes "transition_minutes s = 0"
  shows "wake_transition_color s m
           = Inr (if m < time_to_minutes (wake_time s) then stay_color s else wake_color s)"
  using assms by (simp add: wake_transition_color_def Let_def)

lemma update_leds_division:
  assumes "flash_interval s \<noteq> 0"
  shows "\<exists>a. fst (update_leds s fs m now) = Inr a"
proof -
  obtain c where c: "steady_color s m = Inr c"
    using selects_cases [of s m] steady_night steady_day steady_transition(2) by blast
  obtain b fs1 where sf: "should_flash s fs m now = (b, fs1)"
    by (cases "should_flash s fs m now")
  have ph: "\<exists>p. flash_phase s now = Inr p"
    using assms by (simp add: flash_phase_def py_truediv_def)
  then obtain p where p: "flash_phase s now = Inr p" ..
  from c sf p show ?thesis
    by (cases "bedtime_enabled s"; cases "in_stay_period s m"; cases b)
       (simp_all add: update_leds_def steady_color_def Let_def)
qed

text \<open>
  C6, as amended. With \<open>transition_minutes = 0\<close> the division by \<open>transition_minutes\<close> is
  never executed: the \<open>TRANSITION\<close> state is unreachable and the wake-up logic selects the
  stay colour at every \<open>m < wake_minute\<close> and the wake colour at every
  \<open>m \<ge> wake_minute\<close>. With the LEDs enabled that colour is the output at every minute
  outside the bedtime night period at which no flash session is active; inside the night
  period the output is the stay colour, also at minutes \<open>m \<ge> wake_minute\<close>.
\<close>

theorem zero_transition_instant_switch:
  assumes "transition_minutes s = 0"
  shows "\<not> selects s m TRANSITION
     \<and> wake_transition_color s m
           = Inr (if m < time_to_minutes (wake_time s) then stay_color s else wake_color s)
     \<and> (flash_interval s \<noteq> 0 \<longrightarrow> (\<exists>a. fst (update_leds s fs m now) = Inr a))
     \<and> (leds_enabled s \<and> \<not> (bedtime_enabled s \<and> in_stay_period s m)
            \<and> \<not> fst (should_flash s fs m now) \<longrightarrow>
          fst (update_leds s fs m now)
            = Inr (SetAllLeds (if m < time_to_minutes (wake_time s)
                               then stay_color s else wake_color s)))
     \<and> (leds_enabled s \<and> bedtime_enabled s \<and> in_stay_period s m \<longrightarrow>
          fst (update_leds s fs m now) = Inr (SetAllLeds (stay_color s)))"
proof -
  have a: "\<not> selects s m TRANSITION"
    using assms by simp
  have b: "wake_transition_color s m
           = Inr (if m < time_to_minutes (wake_time s) then stay_color s else wake_color s)"
    using assms by (rule wake_transition_color_zero)
  have c: "flash_interval s \<noteq> 0 \<longrightarrow> (\<exists>a. fst (update_leds s fs m now) = Inr a)"
    using update_leds_division by blast
  have d: "fst (update_leds s fs m now)
            = Inr (SetAllLeds (if m < time_to_minutes (wake_time s)
                               then stay_color s else wake_color s))"
    if "leds_enabled s" "\<not> (bedtime_enabled s \<and> in_stay_period s m)"
       "\<not> fst (should_flash s fs m now)"
  proof -
    have "steady_color s m = wake_transition_color s m"
      using that(2) by (cases "bedtime_enabled s"; cases "in_stay_period s m")
                       (simp_all add: steady_color_def)
    with b that(1,3) show ?thesis
      by (simp add: update_leds_no_flash)
  qed
  have e: "fst (update_leds s fs m now) = Inr (SetAllLeds (stay_color s))"
    if "leds_enabled s" "bedtime_enabled s" "in_stay_period s m"
    using that by (simp add: update_leds_def)
  from a b c d e show ?thesis by blast
qed

theorem zero_transition_instant_switch_witness:
  "transition_minutes cfg_zero_transition = 0
   \<and> \<not> selects cfg_zero_transition 419 TRANSITION
   \<and> wake_transition_color cfg_zero_transition 419 = Inr (255, 0, 0)
   \<and> flash_interval cfg_zero_transition \<noteq> 0
   \<and> leds_enabled cfg_zero_transition
   \<and> \<not> (bedtime_enabled cfg_zero_transition \<and> in_stay_period cfg_zero_transition 420)
   \<and> \<not> fst (should_flash cfg_zero_transition fs0 420 0)
   \<and> fst (update_leds cfg_zero_transition fs0 420 0) = Inr (SetAllLeds (0, 255, 0))
   \<and> bedtime_enabled cfg_zero_transition \<and> in_stay_period cfg_zero_transition 419
   \<and> fst (update_leds cfg_zero_transition fs0 419 0) = Inr (SetAllLeds (255, 0, 0))"
proof -
  have z: "transition_minutes cfg_zero_transition = 0"
    by (simp add: cfg_zero_transition_def default_settings_def)
  have side: "flash_interval cfg_zero_transition \<noteq> 0" "leds_enabled cfg_zero_transition"
    "\<not> (bedtime_enabled cfg_zero_transition \<and> in_stay_period cfg_zero_transition 420)"
    "\<not> fst (should_flash cfg_zero_transition fs0 420 0)"
    "bedtime_enabled cfg_zero_transition" "in_stay_period cfg_zero_transition 419"
    by (simp_all add: cfg_zero_transition_def default_settings_def time_to_minutes_def
          in_stay_period_def should_flash_def)
  have v: "time_to_minutes (wake_time cfg_zero_transition) = 420"
    "stay_color cfg_zero_transition = (255, 0, 0)"
    "wake_color cfg_zero_transition = (0, 255, 0)"
    by (simp_all add: cfg_zero_transition_def default_settings_def time_to_minutes_def)
  note A = zero_transition_instant_switch [OF z, of 419 fs0 0]
  note B = zero_transition_instant_switch [OF z, of 420 fs0 0]
  from A have a1: "\<not> selects cfg_zero_transition 419 TRANSITION"
    and a2: "wake_transition_color cfg_zero_transition 419 = Inr (255, 0, 0)"
    unfolding v by simp_all
  from A side have a3: "fst (update_leds cfg_zero_transition fs0 419 0) = Inr (SetAllLeds (255, 0, 0))"
    unfolding v by blast
  from B side have b1: "fst (update_leds cfg_zero_transition fs0 420 0) = Inr (SetAllLeds (0, 255, 0))"
    unfolding v by simp
  from z side a1 a2 a3 b1 show ?thesis by simp
qed

theorem zero_transition_counterexample:
  "transition_minutes cfg_zero_transition = 0
   \<and> time_to_minutes (wake_time cfg_zero_transition) \<le> 1300
   \<and> fst (update_leds cfg_zero_transition fs0 1300 0) = Inr (SetAllLeds (255, 0, 0))
   \<and> wake_color cfg_zero_transition = (0, 255, 0)"
  by (simp add: cfg_zero_transition_def default_settings_def time_to_minutes_def fs0_def
        update_leds_def in_stay_period_def)

subsection \<open>Flash overlay\<close>

lemma update_leds_night_ignores_flash:
  assumes "leds_enabled s" "bedtime_enabled s" "in_stay_period s m"
  shows "update_leds s fs m now = (Inr (SetAllLeds (stay_color s)), fs)"
  using assms by (simp add: update_leds_def)

text \<open>
  C1 (the code at the failing input). With the default schedule (wake 07:00, bedtime
  21:00), LEDs and flashing enabled, at the bedtime minute 21:00 the conditions of a flash
  session hold (\<^verbatim>\<open>should_flash\<close> would answer \<^verbatim>\<open>True\<close>), yet \<^verbatim>\<open>update_leds\<close> returns from
  the night branch first: at every instant it emits the unmodified stay colour and leaves
  the flash globals untouched, so no session ever starts and nothing alternates.
\<close>

theorem night_return_precedes_flash:
  "in_stay_period cfg_flash_night 1260
   \<and> fst (should_flash cfg_flash_night \<lparr>flash_start_time = None, last_flash_toggle = l\<rparr> 1260 now)
   \<and> update_leds cfg_flash_night fs 1260 now = (Inr (SetAllLeds (255, 0, 0)), fs)"
  by (simp add: cfg_flash_night_def default_settings_def time_to_minutes_def
        update_leds_def in_stay_period_def should_flash_def)

lemma flash_phase_500:
  assumes "flash_interval s = 500" "0 \<le> t"
  shows "flash_phase s t = Inr (\<lfloor>2 * t\<rfloor> mod 2)"
proof -
  have "t / (500 / 1000) = 2 * t" by simp
  with assms show ?thesis
    by (simp add: flash_phase_def py_truediv_def py_int_def mult.commute)
qed

lemma floor_shift_200:
  fixes x :: real
  shows "\<lfloor>x + 2/5\<rfloor> = (if frac x < 3/5 then \<lfloor>x\<rfloor> else \<lfloor>x\<rfloor> + 1)"
proof -
  have fl: "\<lfloor>2/5 :: real\<rfloor> = 0" by simp
  have f: "frac (2/5 :: real) = 2/5" by (simp add: frac_def)
  show ?thesis
    using floor_add [of x "2/5"] by (auto simp add: f fl)
qed

lemma floor_shift_600:
  fixes x :: real
  shows "\<lfloor>x + 6/5\<rfloor> = (if frac x < 4/5 then \<lfloor>x\<rfloor> + 1 else \<lfloor>x\<rfloor> + 2)"
proof -
  have fl: "\<lfloor>6/5 :: real\<rfloor> = 1" by simp
  have f: "frac (6/5 :: real) = 1/5" by (simp add: frac_def)
  show ?thesis
    using floor_add [of x "6/5"] by (auto simp add: f fl)
qed

lemma mod2_succ: "(k + 1) mod 2 \<noteq> (k::int) mod 2"
  by presburger

lemma mod2_succ2: "(k + 2) mod 2 = (k::int) mod 2"
  by presburger

text \<open>
  C4, as amended. With \<open>flash_interval = 500\<close> ms the phase at time \<open>t \<ge> 0\<close> (in seconds)
  is \<open>\<lfloor>2 t\<rfloor> mod 2\<close>. Two evaluations 200 ms apart have the same phase exactly when the
  earlier one lies less than 300 ms after the start of its 500 ms interval (then both lie
  in the same interval); two evaluations 600 ms apart have different phases exactly when
  the earlier one lies less than 400 ms after the start of its interval.
\<close>

theorem flash_phase_interval_500:
  assumes "flash_interval s = 500" "0 \<le> t"
  shows "flash_phase s t = Inr (\<lfloor>2 * t\<rfloor> mod 2)
     \<and> ((flash_phase s (t + 1/5) = flash_phase s t) \<longleftrightarrow> frac (2 * t) < 3/5)
     \<and> ((flash_phase s (t + 3/5) \<noteq> flash_phase s t) \<longleftrightarrow> frac (2 * t) < 4/5)"
proof -
  have p0: "flash_phase s t = Inr (\<lfloor>2 * t\<rfloor> mod 2)"
    using assms by (rule flash_phase_500)
  have "flash_phase s (t + 1/5) = Inr (\<lfloor>2 * (t + 1/5)\<rfloor> mod 2)"
    using assms by (intro flash_phase_500) simp_all
  moreover have "2 * (t + 1/5) = 2 * t + 2/5" by simp
  ultimately have p1: "flash_phase s (t + 1/5) = Inr (\<lfloor>2 * t + 2/5\<rfloor> mod 2)"
    by simp
  have "flash_phase s (t + 3/5) = Inr (\<lfloor>2 * (t + 3/5)\<rfloor> mod 2)"
    using assms by (intro flash_phase_500) simp_all
  moreover have "2 * (t + 3/5) = 2 * t + 6/5" by simp
  ultimately have p2: "flash_phase s (t + 3/5) = Inr (\<lfloor>2 * t + 6/5\<rfloor> mod 2)"
    by simp
  have a: "(flash_phase s (t + 1/5) = flash_phase s t) \<longleftrightarrow> frac (2 * t) < 3/5"
    unfolding p0 p1 floor_shift_200 using mod2_succ [of "\<lfloor>2 * t\<rfloor>"] by simp
  have b: "(flash_phase s (t + 3/5) \<noteq> flash_phase s t) \<longleftrightarrow> frac (2 * t) < 4/5"
    unfolding p0 p2 floor_shift_600
    using mod2_succ [of "\<lfloor>2 * t\<rfloor>"] mod2_succ2 [of "\<lfloor>2 * t\<rfloor>"] by simp
  from p0 a b show ?thesis by blast
qed

theorem flash_phase_interval_500_witness:
  "flash_interval cfg_flash_day = 500 \<and> (0::real) \<le> 0
   \<and> flash_phase cfg_flash_day 0 = Inr 0
   \<and> flash_phase cfg_flash_day (1/5) = Inr 0
   \<and> flash_phase cfg_flash_day (3/5) \<noteq> Inr 0"
proof -
  have i: "flash_interval cfg_flash_day = 500"
    by (simp add: cfg_flash_day_def default_settings_def)
  have z: "(0::real) \<le> 0" by simp
  show ?thesis
    using flash_phase_interval_500 [OF i z] i z by auto
qed

text \<open>
  The phases at 0.4 s, 0.6 s and 1.0 s: 200 ms apart and different, 600 ms apart and equal.
\<close>

theorem flash_phase_counterexample:
  "flash_interval cfg_flash_day = 500
   \<and> flash_phase cfg_flash_day (2/5) = Inr 0
   \<and> flash_phase cfg_flash_day (2/5 + 1/5) = Inr 1
   \<and> flash_phase cfg_flash_day (2/5 + 3/5) = Inr 0"
  by (simp add: cfg_flash_day_def default_settings_def flash_phase_def py_truediv_def py_int_def)

text \<open>
  The same inside a running session (bedtime and wake both 07:00, session started at
  10 s): the evaluations at 10.4 s and at 11.0 s both show the colour.
\<close>

lemma flash_outputs_600ms_apart:
  "update_leds cfg_flash_day \<lparr>flash_start_time = Some 10, last_flash_toggle = 0\<rparr> 420 (52/5)
     = (Inr (SetAllLeds (0, 255, 0)), \<lparr>flash_start_time = Some 10, last_flash_toggle = 52/5\<rparr>)"
  "update_leds cfg_flash_day \<lparr>flash_start_time = Some 10, last_flash_toggle = 52/5\<rparr> 420 11
     = (Inr (SetAllLeds (0, 255, 0)), \<lparr>flash_start_time = Some 10, last_flash_toggle = 11\<rparr>)"
  by (simp_all add: cfg_flash_day_def default_settings_def time_to_minutes_def
        update_leds_def in_stay_period_def should_flash_def wake_transition_color_def
        flash_phase_def py_truediv_def py_int_def)

subsection \<open>Brightness ramp\<close>

lemma brightness_base:
  assumes "\<not> brightness_ramp_enabled s \<or> m < time_to_minutes (wake_time s)
           \<or> m \<ge> time_to_minutes (wake_time s) + brightness_ramp_minutes s"
  shows "get_current_brightness s m = Inr (real_of_int (brightness s))"
  using assms by (auto simp add: get_current_brightness_def Let_def)

lemma brightness_in_ramp:
  assumes "brightness_ramp_enabled s" "time_to_minutes (wake_time s) \<le> m"
    "m < time_to_minutes (wake_time s) + brightness_ramp_minutes s"
  shows "get_current_brightness s m =
     Inr (real_of_int (brightness_ramp_start s)
          + real_of_int (brightness s - brightness_ramp_start s)
            * ease_in_out_cubic (real_of_int (m - time_to_minutes (wake_time s))
                                 / real_of_int (brightness_ramp_minutes s)))"
proof -
  from assms have "brightness_ramp_minutes s \<noteq> 0" by linarith
  with assms show ?thesis
    by (simp add: get_current_brightness_def Let_def py_truediv_def)
qed

text \<open>
  C8. The brightness calculator returns the base percentage whenever the ramp is disabled,
  or the local minute is before \<open>wake_minute\<close>, or it is at or past
  \<open>wake_minute + ramp_minutes\<close>; and with \<open>wake_minute = 420\<close>, \<open>ramp_minutes = 15\<close>,
  \<open>ramp_start = 10\<close>, \<open>base = 100\<close> it returns exactly 10 at \<open>m = 420\<close>, exactly 100 at
  \<open>m = 435\<close>, and a value strictly between 10 and 100 at \<open>m = 427\<close>.
\<close>

theorem brightness_ramp_values:
  "(\<not> brightness_ramp_enabled s \<or> m < time_to_minutes (wake_time s)
      \<or> m \<ge> time_to_minutes (wake_time s) + brightness_ramp_minutes s
     \<longrightarrow> get_current_brightness s m = Inr (real_of_int (brightness s)))
   \<and> (brightness_ramp_enabled s \<and> time_to_minutes (wake_time s) = 420
        \<and> brightness_ramp_minutes s = 15 \<and> brightness_ramp_start s = 10
        \<and> brightness s = 100
     \<longrightarrow> get_current_brightness s 420 = Inr 10
        \<and> get_current_brightness s 435 = Inr 100
        \<and> (\<exists>b. get_current_brightness s 427 = Inr b \<and> 10 < b \<and> b < 100))"
proof -
  have a: "\<not> brightness_ramp_enabled s \<or> m < time_to_minutes (wake_time s)
      \<or> m \<ge> time_to_minutes (wake_time s) + brightness_ramp_minutes s
     \<longrightarrow> get_current_brightness s m = Inr (real_of_int (brightness s))"
    using brightness_base by blast
  have b: "get_current_brightness s 420 = Inr 10
        \<and> get_current_brightness s 435 = Inr 100
        \<and> (\<exists>b. get_current_brightness s 427 = Inr b \<and> 10 < b \<and> b < 100)"
    if h: "brightness_ramp_enabled s" "time_to_minutes (wake_time s) = 420"
        "brightness_ramp_minutes s = 15" "brightness_ramp_start s = 10" "brightness s = 100"
  proof -
    have b0: "get_current_brightness s 420 = Inr 10"
      using h brightness_in_ramp [of s 420] by (simp add: ease_in_out_cubic_def)
    have b1: "get_current_brightness s 435 = Inr 100"
      using h brightness_base [of s 435] by simp
    have e: "ease_in_out_cubic (7/15) = 1372/3375"
      by (simp add: ease_in_out_cubic_def)
    have b2: "get_current_brightness s 427 = Inr (10 + 90 * (1372/3375))"
      using h brightness_in_ramp [of s 427] by (simp add: e)
    have "(10::real) < 10 + 90 * (1372/3375)" "(10::real) + 90 * (1372/3375) < 100"
      by simp_all
    with b0 b1 b2 show ?thesis by blast
  qed
  from a b show ?thesis by blast
qed

theorem brightness_ramp_values_witness:
  "(400::int) < time_to_minutes (wake_time cfg_ramp)
   \<and> get_current_brightness cfg_ramp 400 = Inr 100
   \<and> brightness_ramp_enabled cfg_ramp \<and> time_to_minutes (wake_time cfg_ramp) = 420
   \<and> brightness_ramp_minutes cfg_ramp = 15 \<and> brightness_ramp_start cfg_ramp = 10
   \<and> brightness cfg_ramp = 100
   \<and> get_current_brightness cfg_ramp 420 = Inr 10
   \<and> get_current_brightness cfg_ramp 435 = Inr 100
   \<and> (\<exists>b. get_current_brightness cfg_ramp 427 = Inr b \<and> 10 < b \<and> b < 100)"
proof -
  have h: "brightness_ramp_enabled cfg_ramp" "time_to_minutes (wake_time cfg_ramp) = 420"
    "brightness_ramp_minutes cfg_ramp = 15" "brightness_ramp_start cfg_ramp = 10"
    "brightness cfg_ramp = 100"
    by (simp_all add: cfg_ramp_def default_settings_def time_to_minutes_def)
  have lt: "(400::int) < time_to_minutes (wake_time cfg_ramp)"
    using h by simp
  from brightness_ramp_values [of cfg_ramp 400] lt h
  have "get_current_brightness cfg_ramp 400 = Inr 100"
    by simp
  moreover from brightness_ramp_values [of cfg_ramp 400] h
  have "get_current_brightness cfg_ramp 420 = Inr 10
        \<and> get_current_brightness cfg_ramp 435 = Inr 100
        \<and> (\<exists>b. get_current_brightness cfg_ramp 427 = Inr b \<and> 10 < b \<and> b < 100)"
    by blast
  ultimately show ?thesis
    using h lt by blast
qed

subsection \<open>Synchronising from the external clock\<close>

lemma sync_failure_keeps_clock:
  assumes "\<not> fst (sync_time_from_ds3231 hw)"
  shows "sync_time_from_ds3231 hw = (False, hw)"
  using assms
  by (simp add: sync_time_from_ds3231_def split: option.splits)

lemma read_fails_on_bus_error:
  assumes "external_rtc hw = Some bus" "bus DS3231_ADDR 0 7 = Inl e"
  shows "read_ds3231_time hw = None"
  using assms by (simp add: read_ds3231_time_def)

text \<open>
  C10. When syncing from the external clock fails (no external clock is configured or
  detected, or the register read raises a bus error), the sync operation reports failure
  and the internal clock is left unchanged; and on every path on which the operation
  reports failure nothing of the clocks has changed.
\<close>

theorem sync_failure_leaves_clock_untouched:
  "(external_rtc hw = None \<longrightarrow> sync_time_from_ds3231 hw = (False, hw))
   \<and> (\<forall>bus e. external_rtc hw = Some bus \<and> bus DS3231_ADDR 0 7 = Inl e \<longrightarrow>
         sync_time_from_ds3231 hw = (False, hw))
   \<and> (\<not> fst (sync_time_from_ds3231 hw) \<longrightarrow> snd (sync_time_from_ds3231 hw) = hw)"
proof -
  have a: "external_rtc hw = None \<longrightarrow> sync_time_from_ds3231 hw = (False, hw)"
    by (simp add: sync_time_from_ds3231_def)
  have b: "sync_time_from_ds3231 hw = (False, hw)"
    if "external_rtc hw = Some bus" "bus DS3231_ADDR 0 7 = Inl e" for bus e
    using that read_fails_on_bus_error [OF that]
    by (simp add: sync_time_from_ds3231_def)
  have c: "\<not> fst (sync_time_from_ds3231 hw) \<longrightarrow> snd (sync_time_from_ds3231 hw) = hw"
  proof
    assume "\<not> fst (sync_time_from_ds3231 hw)"
    then have "sync_time_from_ds3231 hw = (False, hw)"
      by (rule sync_failure_keeps_clock)
    then show "snd (sync_time_from_ds3231 hw) = hw" by simp
  qed
  from a b c show ?thesis by blast
qed

theorem sync_failure_leaves_clock_untouched_witness:
  "external_rtc \<lparr>external_rtc = None, rtc = (2024, 1, 1, 0, 12, 0, 0, 0)\<rparr> = None
   \<and> sync_time_from_ds3231 \<lparr>external_rtc = None, rtc = (2024, 1, 1, 0, 12, 0, 0, 0)\<rparr>
       = (False, \<lparr>external_rtc = None, rtc = (2024, 1, 1, 0, 12, 0, 0, 0)\<rparr>)
   \<and> failing_bus DS3231_ADDR 0 7 = Inl OSError
   \<and> sync_time_from_ds3231 \<lparr>external_rtc = Some failing_bus, rtc = (2024, 1, 1, 0, 12, 0, 0, 0)\<rparr>
       = (False, \<lparr>external_rtc = Some failing_bus, rtc = (2024, 1, 1, 0, 12, 0, 0, 0)\<rparr>)
   \<and> sync_time_from_ds3231 \<lparr>external_rtc = Some good_bus, rtc = (2024, 1, 1, 0, 12, 0, 0, 0)\<rparr>
       = (True, \<lparr>external_rtc = Some good_bus, rtc = (2024, 3, 9, 6, 23, 59, 30, 0)\<rparr>)"
proof -
  let ?t = "(2024, 1, 1, 0, 12, 0, 0, 0) :: rtc_datetime"
  have f: "failing_bus DS3231_ADDR 0 7 = Inl OSError"
    by (simp add: failing_bus_def)
  have a: "sync_time_from_ds3231 \<lparr>external_rtc = None, rtc = ?t\<rparr>
       = (False, \<lparr>external_rtc = None, rtc = ?t\<rparr>)"
    using sync_failure_leaves_clock_untouched [of "\<lparr>external_rtc = None, rtc = ?t\<rparr>"]
    by simp
  have b: "sync_time_from_ds3231 \<lparr>external_rtc = Some failing_bus, rtc = ?t\<rparr>
       = (False, \<lparr>external_rtc = Some failing_bus, rtc = ?t\<rparr>)"
    using sync_failure_leaves_clock_untouched
            [of "\<lparr>external_rtc = Some failing_bus, rtc = ?t\<rparr>"] f
    by simp
  have c: "sync_time_from_ds3231 \<lparr>external_rtc = Some good_bus, rtc = ?t\<rparr>
       = (True, \<lparr>external_rtc = Some good_bus, rtc = (2024, 3, 9, 6, 23, 59, 30, 0)\<rparr>)"
    by (simp add: sync_time_from_ds3231_def read_ds3231_time_def good_bus_def bcd_to_dec_def
          drop_bit_eq_div)
  from a b c f show ?thesis by simp
qed

subsection \<open>The weekday search of the DST boundaries\<close>

lemma tm_wday_range: "0 \<le> tm_wday (localtime t) \<and> tm_wday (localtime t) < 7"
  by (simp add: localtime_def Let_def)

lemma weekday_six_is_saturday:
  assumes "current_weekday year month day = 6"
  shows "tm_wday (localtime (mktime (year, month, day, 0, 0, 0, 0, 0))) = 5"
proof -
  let ?w = "tm_wday (localtime (mktime (year, month, day, 0, 0, 0, 0, 0)))"
  have "0 \<le> ?w" "?w < 7" using tm_wday_range by blast+
  moreover have "(?w + 1) mod 7 = 6"
    using assms by (simp add: current_weekday_def)
  ultimately show ?thesis by presburger
qed

lemma nth_forward_result:
  "nth_forward year month weekday n day count = Some r \<Longrightarrow>
     current_weekday year month r = weekday \<and> day \<le> r \<and> r \<le> 31"
proof (induction year month weekday n day count rule: nth_forward.induct)
  case (1 year month weekday n day count)
  show ?case
  proof (cases "day \<le> 31")
    case False
    with "1.prems" show ?thesis
      by (simp add: nth_forward.simps [of year month weekday n day count])
  next
    case le: True
    note unf = nth_forward.simps [of year month weekday n day count]
    show ?thesis
    proof (cases "current_weekday year month day = weekday")
      case hit: True
      show ?thesis
      proof (cases "count + 1 = n")
        case True
        with le hit "1.prems" show ?thesis by (simp add: unf)
      next
        case False
        with le hit "1.prems"
        have "nth_forward year month weekday n (day + 1) (count + 1) = Some r"
          by (simp add: unf)
        from "1.IH"(1) [OF le hit False this] show ?thesis by simp
      qed
    next
      case miss: False
      with le "1.prems"
      have "nth_forward year month weekday n (day + 1) count = Some r"
        by (simp add: unf)
      from "1.IH"(2) [OF le miss this] show ?thesis by simp
    qed
  qed
qed

lemma last_backward_result:
  "last_backward year month weekday day = Some r \<Longrightarrow>
     current_weekday year month r = weekday \<and> 1 \<le> r \<and> r \<le> day"
proof (induction year month weekday day rule: last_backward.induct)
  case (1 year month weekday day)
  show ?case
  proof (cases "day \<ge> 1")
    case False
    with "1.prems" show ?thesis
      by (simp add: last_backward.simps [of year month weekday day])
  next
    case ge: True
    note unf = last_backward.simps [of year month weekday day]
    show ?thesis
    proof (cases "current_weekday year month day = weekday")
      case True
      with ge "1.prems" show ?thesis by (simp add: unf)
    next
      case miss: False
      with ge "1.prems"
      have "last_backward year month weekday (day - 1) = Some r"
        by (simp add: unf)
      from "1.IH" [OF ge miss this] show ?thesis by simp
    qed
  qed
qed

lemma get_nth_weekday_result:
  assumes "get_nth_weekday_of_month year month weekday n = Some r"
  shows "current_weekday year month r = weekday" and "1 \<le> r"
proof -
  show "current_weekday year month r = weekday"
    using assms nth_forward_result last_backward_result
    by (auto simp: get_nth_weekday_of_month_def Let_def split: if_splits)
  show "1 \<le> r"
    using assms nth_forward_result [of year month weekday n 1 0 r] last_backward_result
    by (auto simp: get_nth_weekday_of_month_def Let_def split: if_splits)
qed

text \<open>
  C2 (what the code does instead). \<^verbatim>\<open>calculate_dst_transitions\<close> asks for weekday 6, and
  the search compares 6 with \<^verbatim>\<open>(tm_wday + 1) % 7\<close>, which is 6 on a Saturday
  (\<^verbatim>\<open>tm_wday = 5\<close>) and 0 on a Sunday: every day the search returns for the DST boundaries
  is a Saturday, for every year and month. For the US rule in 2024 the start day is
  Saturday 9 March, the day before the second Sunday.
\<close>

theorem dst_search_returns_saturday:
  assumes "get_nth_weekday_of_month year month 6 n = Some day"
  shows "tm_wday (localtime (mktime (year, month, day, 0, 0, 0, 0, 0))) = 5"
  using assms get_nth_weekday_result(1) weekday_six_is_saturday by blast

theorem dst_search_returns_saturday_witness:
  "get_nth_weekday_of_month 2024 3 6 2 = Some 9
   \<and> tm_wday (localtime (mktime (2024, 3, 9, 0, 0, 0, 0, 0))) = 5
   \<and> tm_wday (localtime (mktime (2024, 3, 10, 0, 0, 0, 0, 0))) = 6
   \<and> calculate_dst_transitions 2024 ''US''
       = (Some (mktime (2024, 3, 9, 2, 0, 0, 0, 0)), Some (mktime (2024, 11, 2, 2, 0, 0, 0, 0)))"
proof -
  have c: "calculate_dst_transitions 2024 ''US''
       = (Some (mktime (2024, 3, 9, 2, 0, 0, 0, 0)), Some (mktime (2024, 11, 2, 2, 0, 0, 0, 0)))"
    by code_simp
  have a: "get_nth_weekday_of_month 2024 3 6 2 = Some 9" by code_simp
  have b: "tm_wday (localtime (mktime (2024, 3, 10, 0, 0, 0, 0, 0))) = 6" by code_simp
  from dst_search_returns_saturday [OF a] a b c show ?thesis by simp
qed

subsection \<open>The calendar: from a date to its year and back\<close>

lemma div_step_gen:
  fixes y :: int
  assumes "0 < k"
  shows "y div k - (y - 1) div k = (if y mod k = 0 then 1 else 0)"
proof (cases "y mod k = 0")
  case True
  then obtain q where q: "y = k * q" by (auto simp: mod_eq_0_iff_dvd)
  have "(k * q - 1) div k = q - 1"
  proof -
    have e: "k * q - 1 = k * (q - 1) + (k - 1)" by (simp add: algebra_simps)
    show ?thesis
      unfolding e using assms by (simp add: div_pos_pos_trivial)
  qed
  with q True assms show ?thesis by simp
next
  case False
  have m: "0 \<le> y mod k" "y mod k < k" using assms by simp_all
  with False have pos: "1 \<le> y mod k" by simp
  have e2: "y - 1 = k * (y div k) + (y mod k - 1)" by simp
  have "(y - 1) div k = y div k"
    by (subst e2) (use assms pos m in \<open>simp add: div_pos_pos_trivial\<close>)
  then show ?thesis using False by simp
qed

lemma mod_400_100: "(y::int) mod 400 = 0 \<Longrightarrow> y mod 100 = 0"
proof -
  assume "y mod 400 = 0"
  then have "400 dvd y" by (simp add: mod_eq_0_iff_dvd)
  moreover have "(100::int) dvd 400" by simp
  ultimately have "100 dvd y" by (rule dvd_trans [rotated])
  then show ?thesis by (simp add: mod_eq_0_iff_dvd)
qed

lemma mod_100_4: "(y::int) mod 100 = 0 \<Longrightarrow> y mod 4 = 0"
proof -
  assume "y mod 100 = 0"
  then have "100 dvd y" by (simp add: mod_eq_0_iff_dvd)
  moreover have "(4::int) dvd 100" by simp
  ultimately have "4 dvd y" by (rule dvd_trans [rotated])
  then show ?thesis by (simp add: mod_eq_0_iff_dvd)
qed

lemma linear_step:
  fixes y a b c a' b' c' :: int
  shows "365 * (y + 1 - 1970) + (a' - b' + c') - 477
          = 365 * (y - 1970) + (a - b + c) - 477
            + (365 + ((a' - a) - (b' - b) + (c' - c)))"
  by simp

lemma leap_count_bool:
  fixes p4 p100 p400 :: bool
  assumes "p400 \<longrightarrow> p100" "p100 \<longrightarrow> p4"
  shows "365 + (((if p4 then 1 else 0) - (if p100 then 1 else 0))
            + (if p400 then 1 else 0))
         = (if p4 \<and> (\<not> p100 \<or> p400) then 366 else (365::int))"
  using assms by (cases p4; cases p100; cases p400) simp_all

lemma days_before_year_step:
  "days_before_year (y + 1) = days_before_year y + days_in_year y"
proof -
  have e: "y + 1 - 1 = y" by simp
  have d4: "y div 4 - (y - 1) div 4 = (if y mod 4 = 0 then 1 else 0)"
    by (rule div_step_gen) simp
  have d100: "y div 100 - (y - 1) div 100 = (if y mod 100 = 0 then 1 else 0)"
    by (rule div_step_gen) simp
  have d400: "y div 400 - (y - 1) div 400 = (if y mod 400 = 0 then 1 else 0)"
    by (rule div_step_gen) simp
  have "days_before_year (y + 1)
          = days_before_year y
            + (365 + ((y div 4 - (y - 1) div 4) - (y div 100 - (y - 1) div 100)
                      + (y div 400 - (y - 1) div 400)))"
    unfolding days_before_year_def e by (rule linear_step)
  also have "365 + ((y div 4 - (y - 1) div 4) - (y div 100 - (y - 1) div 100)
                      + (y div 400 - (y - 1) div 400)) = days_in_year y"
    unfolding d4 d100 d400 days_in_year_def is_leap_year_def
  proof (rule leap_count_bool)
    show "y mod 400 = 0 \<longrightarrow> y mod 100 = 0" by (rule impI) (rule mod_400_100)
    show "y mod 100 = 0 \<longrightarrow> y mod 4 = 0" by (rule impI) (rule mod_100_4)
  qed
  finally show ?thesis .
qed

lemma days_in_year_pos: "365 \<le> days_in_year y" "days_in_year y \<le> 366"
  by (simp_all add: days_in_year_def)

lemma days_before_year_epoch: "days_before_year 1970 = 0"
  by (simp add: days_before_year_def)

lemma days_before_year_next:
  "y < y' \<Longrightarrow> days_before_year y + days_in_year y \<le> days_before_year y'"
proof (induction "nat (y' - y)" arbitrary: y')
  case 0
  then show ?case by simp
next
  case (Suc k)
  show ?case
  proof (cases "y' = y + 1")
    case True
    then show ?thesis by (simp add: days_before_year_step)
  next
    case False
    with Suc.prems have lt: "y < y' - 1" by simp
    from Suc.hyps(2) have "k = nat (y' - 1 - y)" by simp
    from Suc.hyps(1) [OF this lt]
    have "days_before_year y + days_in_year y \<le> days_before_year (y' - 1)" .
    moreover have "days_before_year y' = days_before_year (y' - 1) + days_in_year (y' - 1)"
      using days_before_year_step [of "y' - 1"] by simp
    ultimately show ?thesis
      using days_in_year_pos(1) [of "y' - 1"] by linarith
  qed
qed

lemma year_fwd_roundtrip:
  assumes "0 \<le> k" "k < days_in_year y" "y0 \<le> y"
  shows "year_fwd y0 (days_before_year y - days_before_year y0 + k) = (y, k)"
  using assms(3)
proof (induction "nat (y - y0)" arbitrary: y0)
  case 0
  then have "y0 = y" by simp
  with assms show ?case
    by (simp add: year_fwd.simps [of y k])
next
  case (Suc n)
  then have lt: "y0 < y" by simp
  let ?d = "days_before_year y - days_before_year y0 + k"
  have ge: "days_in_year y0 \<le> ?d"
    using days_before_year_next [OF lt] assms(1) by linarith
  have n: "n = nat (y - (y0 + 1))" using Suc.hyps(2) by simp
  have le: "y0 + 1 \<le> y" using lt by simp
  have "year_fwd y0 ?d = year_fwd (y0 + 1) (?d - days_in_year y0)"
    using ge by (simp add: year_fwd.simps [of y0 ?d])
  also have "?d - days_in_year y0 = days_before_year y - days_before_year (y0 + 1) + k"
    by (simp add: days_before_year_step)
  also have "year_fwd (y0 + 1) \<dots> = (y, k)"
    by (rule Suc.hyps(1) [OF n le])
  finally show ?case .
qed

lemma year_bwd_roundtrip:
  assumes "0 \<le> k" "k < days_in_year y" "y \<le> y0"
  shows "year_bwd y0 (days_before_year y - days_before_year y0 + k) = (y, k)"
  using assms(3)
proof (induction "nat (y0 - y)" arbitrary: y0)
  case 0
  then have "y0 = y" by simp
  with assms show ?case
    by (simp add: year_bwd.simps [of y k])
next
  case (Suc n)
  then have lt: "y < y0" by simp
  let ?d = "days_before_year y - days_before_year y0 + k"
  have neg: "?d < 0"
    using days_before_year_next [OF lt] assms(2) by linarith
  have n: "n = nat (y0 - 1 - y)" using Suc.hyps(2) by simp
  have le: "y \<le> y0 - 1" using lt by simp
  have st: "days_before_year y0 = days_before_year (y0 - 1) + days_in_year (y0 - 1)"
    using days_before_year_step [of "y0 - 1"] by simp
  have "year_bwd y0 ?d = year_bwd (y0 - 1) (?d + days_in_year (y0 - 1))"
    using neg by (simp add: year_bwd.simps [of y0 ?d])
  also have "?d + days_in_year (y0 - 1)
               = days_before_year y - days_before_year (y0 - 1) + k"
    using st by simp
  also have "year_bwd (y0 - 1) \<dots> = (y, k)"
    by (rule Suc.hyps(1) [OF n le])
  finally show ?case .
qed

lemma year_and_yday_roundtrip:
  assumes "0 \<le> k" "k < days_in_year y"
  shows "year_and_yday (days_before_year y + k) = (y, k)"
proof (cases "1970 \<le> y")
  case True
  have "0 \<le> days_before_year y"
  proof (cases "y = 1970")
    case True
    then show ?thesis by (simp add: days_before_year_epoch)
  next
    case False
    with \<open>1970 \<le> y\<close> have "1970 < y" by simp
    from days_before_year_next [OF this] days_in_year_pos(1) [of 1970]
    show ?thesis by (simp add: days_before_year_epoch)
  qed
  with assms(1) have "\<not> days_before_year y + k < 0" by simp
  then show ?thesis
    using year_fwd_roundtrip [OF assms True]
    by (simp add: year_and_yday_def days_before_year_epoch)
next
  case False
  then have lt: "y < 1970" by simp
  from days_before_year_next [OF lt] assms(2)
  have "days_before_year y + k < 0"
    by (simp add: days_before_year_epoch)
  moreover have "y \<le> 1970" using lt by simp
  ultimately show ?thesis
    using year_bwd_roundtrip [OF assms \<open>y \<le> 1970\<close>]
    by (simp add: year_and_yday_def days_before_year_epoch)
qed

lemma days_before_month_bounds:
  "0 \<le> days_before_month leap m"
  "days_before_month leap m \<le> 334 + (if leap then 1 else 0)"
  by (simp_all add: days_before_month_def)

lemma tm_year_localtime: "tm_year (localtime t) = fst (year_and_yday (t div 86400))"
  by (simp add: localtime_def Let_def)

lemma tm_mday_localtime:
  "tm_mday (localtime t) =
     snd (month_and_mday (is_leap_year (fst (year_and_yday (t div 86400))))
                         (snd (year_and_yday (t div 86400))))"
  by (simp add: localtime_def Let_def)

lemma day_seconds_div:
  fixes D r :: int
  assumes "0 \<le> r" "r < 86400"
  shows "(D * 86400 + r) div 86400 = D"
proof -
  have "(D * 86400 + r) div 86400 = D + r div 86400"
    by (rule div_mult_self3) simp
  also have "r div 86400 = 0"
    using assms by (rule div_pos_pos_trivial)
  finally show ?thesis by simp
qed

lemma tm_year_mktime:
  assumes "1 \<le> d" "d \<le> 31" "0 \<le> h" "h < 24"
  shows "tm_year (localtime (mktime (y, m, d, h, 0, 0, wd, yd))) = y"
proof -
  let ?k = "days_before_month (is_leap_year y) m + (d - 1)"
  have k0: "0 \<le> ?k"
    using days_before_month_bounds(1) [of "is_leap_year y" m] assms(1) by linarith
  have k1: "?k < days_in_year y"
    using days_before_month_bounds(2) [of "is_leap_year y" m] assms(2)
    by (cases "is_leap_year y") (simp_all add: days_in_year_def)
  have r: "0 \<le> h * 3600" "h * 3600 < 86400" using assms(3,4) by simp_all
  have "mktime (y, m, d, h, 0, 0, wd, yd) = (days_before_year y + ?k) * 86400 + h * 3600"
    by (simp add: mktime_def add.assoc)
  then have "mktime (y, m, d, h, 0, 0, wd, yd) div 86400 = days_before_year y + ?k"
    using day_seconds_div [OF r] by simp
  then show ?thesis
    using year_and_yday_roundtrip [OF k0 k1] by (simp add: tm_year_localtime)
qed

lemma year_fwd_rem:
  "0 \<le> d \<Longrightarrow> 0 \<le> snd (year_fwd y d) \<and> snd (year_fwd y d) < days_in_year (fst (year_fwd y d))"
proof (induction y d rule: year_fwd.induct)
  case (1 y d)
  show ?case
  proof (cases "d \<ge> days_in_year y")
    case True
    then have "0 \<le> d - days_in_year y" by simp
    from "1.IH" [OF True this] True show ?thesis
      by (simp add: year_fwd.simps [of y d])
  next
    case False
    with "1.prems" show ?thesis
      by (simp add: year_fwd.simps [of y d])
  qed
qed

lemma year_bwd_rem:
  "d < 0 \<Longrightarrow> 0 \<le> snd (year_bwd y d) \<and> snd (year_bwd y d) < days_in_year (fst (year_bwd y d))"
proof (induction y d rule: year_bwd.induct)
  case (1 y d)
  let ?d1 = "d + days_in_year (y - 1)"
  have unf: "year_bwd y d = year_bwd (y - 1) ?d1"
    using "1.prems" by (simp add: year_bwd.simps [of y d])
  show ?case
  proof (cases "?d1 < 0")
    case True
    from "1.IH" [OF "1.prems" True] show ?thesis by (simp add: unf)
  next
    case False
    then have "year_bwd (y - 1) ?d1 = (y - 1, ?d1)"
      by (simp add: year_bwd.simps [of "y - 1" ?d1])
    with False "1.prems" show ?thesis by (simp add: unf)
  qed
qed

lemma year_and_yday_rem:
  "0 \<le> snd (year_and_yday n)
   \<and> snd (year_and_yday n) < days_in_year (fst (year_and_yday n))"
  using year_fwd_rem [of n 1970] year_bwd_rem [of n 1970]
  by (cases "n < 0") (simp_all add: year_and_yday_def)

lemma month_and_mday_range:
  assumes "0 \<le> yd" "yd < 365 + (if leap then 1 else 0)"
  shows "1 \<le> snd (month_and_mday leap yd)" "snd (month_and_mday leap yd) \<le> 31"
  using assms by (cases leap; simp add: month_and_mday_def)+

lemma tm_mday_range: "1 \<le> tm_mday (localtime t)" "tm_mday (localtime t) \<le> 31"
proof -
  let ?yy = "year_and_yday (t div 86400)"
  have a: "0 \<le> snd ?yy" and b: "snd ?yy < days_in_year (fst ?yy)"
    using year_and_yday_rem [of "t div 86400"] by simp_all
  from b have c: "snd ?yy < 365 + (if is_leap_year (fst ?yy) then 1 else 0)"
    by (simp add: days_in_year_def split: if_splits)
  show "1 \<le> tm_mday (localtime t)" "tm_mday (localtime t) \<le> 31"
    using month_and_mday_range [OF a c] by (simp_all add: tm_mday_localtime)
qed

lemma get_nth_weekday_range:
  assumes "get_nth_weekday_of_month year month weekday n = Some r"
  shows "1 \<le> r" "r \<le> 31"
proof -
  show "1 \<le> r" using assms by (rule get_nth_weekday_result(2))
  show "r \<le> 31"
  proof (cases "n > 0")
    case True
    with assms have "nth_forward year month weekday n 1 0 = Some r"
      by (simp add: get_nth_weekday_of_month_def)
    from nth_forward_result [OF this] show ?thesis by simp
  next
    case False
    with assms obtain d where d: "last_backward year month weekday d = Some r"
      and dd: "d = tm_mday (localtime (mktime ((if month = 12 then year + 1 else year),
                 (if month = 12 then 1 else month + 1), 1, 0, 0, 0, 0, 0) - 86400))"
      by (simp add: get_nth_weekday_of_month_def Let_def)
    from last_backward_result [OF d] have "r \<le> d" by simp
    moreover have "d \<le> 31" unfolding dd by (rule tm_mday_range(2))
    ultimately show ?thesis by simp
  qed
qed

subsection \<open>DST activation at the boundaries\<close>

lemma DST_RULES_cases:
  assumes "DST_RULES region = Some r"
  shows "(start_month r = 3 \<and> end_month r = 11 \<and> start_hour r = 2 \<and> end_hour r = 2)
       \<or> (start_month r = 3 \<and> end_month r = 10 \<and> start_hour r = 1 \<and> end_hour r = 1)
       \<or> (start_month r = 10 \<and> end_month r = 4 \<and> start_hour r = 2 \<and> end_hour r = 3)"
  using assms by (auto simp add: DST_RULES_def split: if_splits)

lemma calculate_some:
  assumes "DST_RULES region = Some r"
    and "calculate_dst_transitions y region = (Some ds, Some de)"
  shows "\<exists>sd ed.
           get_nth_weekday_of_month y (start_month r) 6 (start_week r) = Some sd
         \<and> get_nth_weekday_of_month y (end_month r) 6 (end_week r) = Some ed
         \<and> ds = mktime (y, start_month r, sd, start_hour r, 0, 0, 0, 0)
         \<and> de = mktime (y, end_month r, ed, end_hour r, 0, 0, 0, 0)"
proof -
  let ?a = "get_nth_weekday_of_month y (start_month r) 6 (start_week r)"
  let ?b = "get_nth_weekday_of_month y (end_month r) 6 (end_week r)"
  have t: "truthy_day ?a \<and> truthy_day ?b"
  proof (rule ccontr)
    assume "\<not> (truthy_day ?a \<and> truthy_day ?b)"
    with assms(1) have "calculate_dst_transitions y region = (None, None)"
      by (simp add: calculate_dst_transitions_def Let_def)
    with assms(2) show False by simp
  qed
  then obtain sd ed where sd: "?a = Some sd" and ed: "?b = Some ed"
    by (auto simp add: truthy_day_def split: option.splits)
  from assms t sd ed
  have "ds = mktime (y, start_month r, sd, start_hour r, 0, 0, 0, 0)
      \<and> de = mktime (y, end_month r, ed, end_hour r, 0, 0, 0, 0)"
    by (simp add: calculate_dst_transitions_def Let_def)
  with sd ed show ?thesis by blast
qed

lemma seconds_order:
  fixes B sd ed sh eh :: int
  assumes "sd \<le> 31" "1 \<le> ed" "sh < 24" "0 \<le> eh"
  shows "(B + 59 + (sd - 1)) * 86400 + sh * 3600
          < (B + 273 + (ed - 1)) * 86400 + eh * 3600"
proof -
  have "(B + 59 + (sd - 1)) * 86400 + sh * 3600
          = B * 86400 + sd * 86400 + sh * 3600 + 58 * 86400"
    by (simp add: algebra_simps)
  moreover have "(B + 273 + (ed - 1)) * 86400 + eh * 3600
          = B * 86400 + ed * 86400 + eh * 3600 + 272 * 86400"
    by (simp add: algebra_simps)
  ultimately show ?thesis using assms by linarith
qed

lemma mktime_march_before_autumn:
  assumes "em = 10 \<or> em = 11" "sd \<le> 31" "1 \<le> ed" "sh < 24" "0 \<le> eh"
  shows "mktime (y, 3, sd, sh, 0, 0, 0, 0) < mktime (y, em, ed, eh, 0, 0, 0, 0)"
proof -
  let ?B = "days_before_year y + (if is_leap_year y then 1 else 0)"
  have s: "mktime (y, 3, sd, sh, 0, 0, 0, 0) = (?B + 59 + (sd - 1)) * 86400 + sh * 3600"
    by (simp add: mktime_def days_before_month_def)
  have e: "(?B + 273 + (ed - 1)) * 86400 + eh * 3600 \<le> mktime (y, em, ed, eh, 0, 0, 0, 0)"
    using assms(1) by (auto simp add: mktime_def days_before_month_def)
  have "(?B + 59 + (sd - 1)) * 86400 + sh * 3600
          < (?B + 273 + (ed - 1)) * 86400 + eh * 3600"
    using assms(2-5) by (rule seconds_order)
  with s e show ?thesis by linarith
qed

lemma is_dst_active_eval:
  assumes "dst_enabled s" "DST_RULES region = Some r"
    and "calculate_dst_transitions (tm_year (localtime t)) region = (Some ds, Some de)"
  shows "is_dst_active s t region =
           (if start_month r < end_month r then ds \<le> t \<and> t < de else t \<ge> ds \<or> t < de)"
  using assms by (simp add: is_dst_active_def Let_def)

lemma northern_boundaries:
  assumes en: "dst_enabled s" and r: "DST_RULES region = Some r"
    and north: "start_month r < end_month r"
    and calc: "calculate_dst_transitions y region = (Some ds, Some de)"
  shows "is_dst_active s ds region" and "\<not> is_dst_active s de region"
proof -
  from calculate_some [OF r calc] obtain sd ed where
    sd: "get_nth_weekday_of_month y (start_month r) 6 (start_week r) = Some sd"
    and ed: "get_nth_weekday_of_month y (end_month r) 6 (end_week r) = Some ed"
    and ds: "ds = mktime (y, start_month r, sd, start_hour r, 0, 0, 0, 0)"
    and de: "de = mktime (y, end_month r, ed, end_hour r, 0, 0, 0, 0)"
    by blast
  note sdr = get_nth_weekday_range [OF sd]
  note edr = get_nth_weekday_range [OF ed]
  from DST_RULES_cases [OF r] north
  have m: "start_month r = 3" "end_month r = 10 \<or> end_month r = 11"
    and h: "0 \<le> start_hour r" "start_hour r < 24" "0 \<le> end_hour r" "end_hour r < 24"
    by auto
  have ys: "tm_year (localtime ds) = y"
    unfolding ds using sdr h(1,2) by (rule tm_year_mktime)
  have ye: "tm_year (localtime de) = y"
    unfolding de using edr h(3,4) by (rule tm_year_mktime)
  have lt: "ds < de"
    unfolding ds de m(1) using m(2) sdr(2) edr(1) h(2,3)
    by (rule mktime_march_before_autumn)
  from calc ys have cs: "calculate_dst_transitions (tm_year (localtime ds)) region
                           = (Some ds, Some de)" by simp
  from calc ye have ce: "calculate_dst_transitions (tm_year (localtime de)) region
                           = (Some ds, Some de)" by simp
  show "is_dst_active s ds region"
    using is_dst_active_eval [OF en r cs] north lt by simp
  show "\<not> is_dst_active s de region"
    using is_dst_active_eval [OF en r ce] north by simp
qed

text \<open>
  C7. With DST enabled, for every rule of the table with \<open>start_month < end_month\<close> and
  every year for which both boundaries are computed, \<^verbatim>\<open>is_dst_active\<close> is true at the
  instant equal to the start boundary and false at the instant equal to the end boundary;
  and for every rule with \<open>start_month \<ge> end_month\<close>, DST is active exactly when the
  instant is at or after the start boundary or before the end boundary (the boundaries of
  the calendar year of the instant).
\<close>

theorem dst_active_at_boundaries:
  assumes "dst_enabled s" "DST_RULES region = Some r"
  shows "(start_month r < end_month r \<longrightarrow>
            (\<forall>y ds de. calculate_dst_transitions y region = (Some ds, Some de) \<longrightarrow>
                 is_dst_active s ds region \<and> \<not> is_dst_active s de region))
       \<and> (\<not> start_month r < end_month r \<longrightarrow>
            (\<forall>t ds de.
                 calculate_dst_transitions (tm_year (localtime t)) region = (Some ds, Some de)
                 \<longrightarrow> (is_dst_active s t region \<longleftrightarrow> (t \<ge> ds \<or> t < de))))"
proof (intro conjI impI allI)
  fix y ds de
  assume "start_month r < end_month r"
    and "calculate_dst_transitions y region = (Some ds, Some de)"
  with assms show "is_dst_active s ds region" by (rule northern_boundaries(1))
next
  fix y ds de
  assume "start_month r < end_month r"
    and "calculate_dst_transitions y region = (Some ds, Some de)"
  with assms show "\<not> is_dst_active s de region" by (rule northern_boundaries(2))
next
  fix t ds de
  assume south: "\<not> start_month r < end_month r"
    and calc: "calculate_dst_transitions (tm_year (localtime t)) region = (Some ds, Some de)"
  show "is_dst_active s t region \<longleftrightarrow> (t \<ge> ds \<or> t < de)"
    using is_dst_active_eval [OF assms calc] south by simp
qed

theorem dst_active_at_boundaries_witness:
  "dst_enabled default_settings
   \<and> DST_RULES ''US'' = Some \<lparr> start_month = 3, start_week = 2, start_hour = 2,
                end_month = 11, end_week = 1, end_hour = 2, offset_minutes = 60 \<rparr>
   \<and> calculate_dst_transitions 2024 ''US'' = (Some 1709949600, Some 1730512800)
   \<and> is_dst_active default_settings 1709949600 ''US''
   \<and> \<not> is_dst_active default_settings 1730512800 ''US''
   \<and> DST_RULES ''AU'' = Some \<lparr> start_month = 10, start_week = 1, start_hour = 2,
                end_month = 4, end_week = 1, end_hour = 3, offset_minutes = 60 \<rparr>
   \<and> calculate_dst_transitions (tm_year (localtime 1705276800)) ''AU''
       = (Some 1728093600, Some 1712372400)
   \<and> is_dst_active default_settings 1705276800 ''AU''"
proof -
  let ?us = "\<lparr> start_month = 3, start_week = 2, start_hour = 2,
                end_month = 11, end_week = 1, end_hour = 2, offset_minutes = 60 \<rparr>"
  let ?au = "\<lparr> start_month = 10, start_week = 1, start_hour = 2,
                end_month = 4, end_week = 1, end_hour = 3, offset_minutes = 60 \<rparr>"
  have en: "dst_enabled default_settings"
    by (simp add: default_settings_def)
  have rus: "DST_RULES ''US'' = Some ?us" and rau: "DST_RULES ''AU'' = Some ?au"
    by (simp_all add: DST_RULES_def)
  have cus: "calculate_dst_transitions 2024 ''US'' = (Some 1709949600, Some 1730512800)"
    by code_simp
  have cau: "calculate_dst_transitions (tm_year (localtime 1705276800)) ''AU''
       = (Some 1728093600, Some 1712372400)"
    by code_simp
  from dst_active_at_boundaries [OF en rus]
  have "\<forall>y ds de. calculate_dst_transitions y ''US'' = (Some ds, Some de) \<longrightarrow>
          is_dst_active default_settings ds ''US'' \<and> \<not> is_dst_active default_settings de ''US''"
    by simp
  with cus have us: "is_dst_active default_settings 1709949600 ''US''
       \<and> \<not> is_dst_active default_settings 1730512800 ''US''"
    by blast
  from dst_active_at_boundaries [OF en rau]
  have "\<forall>t ds de. calculate_dst_transitions (tm_year (localtime t)) ''AU'' = (Some ds, Some de)
          \<longrightarrow> (is_dst_active default_settings t ''AU'' \<longleftrightarrow> (t \<ge> ds \<or> t < de))"
    by simp
  with cau have "is_dst_active default_settings 1705276800 ''AU''
                   \<longleftrightarrow> ((1705276800::int) \<ge> 1728093600 \<or> (1705276800::int) < 1712372400)"
    by blast
  then have au: "is_dst_active default_settings 1705276800 ''AU''" by simp
  from en rus rau cus cau us au show ?thesis by blast
qed

end
